theory Spec2Isabelle
  imports Main
begin

section \<open>Strings, buffers and the insertion-ordered Map\<close>

text \<open>
  A JavaScript string is a sequence of code units. It is modelled as a HOL \<open>string\<close>, one
  \<open>char\<close> per code unit; HOL's \<open>char\<close> has eight bits, the range of the code units of an HTTP
  header value and of a request path. \<open>length\<close>, \<open>take\<close> and \<open>drop\<close> count code units, as
  \<open>.length\<close> and \<open>.slice\<close> do.
\<close>

definition startsWith :: "string \<Rightarrow> string \<Rightarrow> bool" where
  "startsWith s p = (take (length p) s = p)"

definition endsWith :: "string \<Rightarrow> string \<Rightarrow> bool" where
  "endsWith s p = (length p \<le> length s \<and> drop (length s - length p) s = p)"

text \<open>\<open>s.slice(n)\<close> for \<open>0 \<le> n\<close>: the empty string when \<open>n\<close> is beyond the end.\<close>

definition slice_from :: "string \<Rightarrow> nat \<Rightarrow> string" where
  "slice_from s n = drop n s"

text \<open>\<open>s.slice(0, n)\<close>.\<close>

definition slice_to :: "string \<Rightarrow> nat \<Rightarrow> string" where
  "slice_to s n = take n s"

text \<open>\<open>s.indexOf(c)\<close> for a one-character needle; \<open>None\<close> stands for \<open>-1\<close>.\<close>

fun indexOf :: "string \<Rightarrow> char \<Rightarrow> nat option" where
  "indexOf [] c = None"
| "indexOf (x # xs) c = (if x = c then Some 0 else map_option Suc (indexOf xs c))"

text \<open>\<open>s.replace(/\/+$/, "")\<close>: the run of slashes at the end of the string is removed.\<close>

definition stripTrailingSlashes :: "string \<Rightarrow> string" where
  "stripTrailingSlashes s = rev (dropWhile (\<lambda>c. c = CHR ''/'') (rev s))"

text \<open>
  \<open>!a\<close> for \<open>a: string | null\<close>: both \<open>null\<close> and the empty string are falsy.
\<close>

definition falsy :: "string option \<Rightarrow> bool" where
  "falsy a = (a = None \<or> a = Some [])"

text \<open>
  \<open>Buffer.from(a)\<close>: the UTF-8 encoding of the string, one byte for a code unit below
  \<open>0x80\<close> and two bytes for a code unit from \<open>0x80\<close> to \<open>0xFF\<close>. Code units beyond
  \<open>0xFF\<close>, and with them the surrogates that the runtime replaces when it encodes, are
  outside the model: on the strings of the model the encoding loses nothing, on all
  JavaScript strings it does.
\<close>

definition utf8_unit :: "char \<Rightarrow> nat list" where
  "utf8_unit c =
     (let n = (of_char c :: nat)
      in if n < 128 then [n] else [192 + n div 64, 128 + n mod 64])"

definition Buffer_from :: "string \<Rightarrow> nat list" where
  "Buffer_from s = concat (map utf8_unit s)"

text \<open>The exception that \<open>crypto.timingSafeEqual\<close> raises, with its message.\<close>

datatype error = TimingSafeEqualLength

definition message :: "error \<Rightarrow> string" where
  "message e = ''Input buffers must have the same byte length''"

text \<open>
  \<open>crypto.timingSafeEqual(a, b)\<close> of the runtime: it throws when the two buffers differ in
  length and otherwise tells whether they hold the same bytes.
\<close>

definition timingSafeEqual :: "nat list \<Rightarrow> nat list \<Rightarrow> error + bool" where
  "timingSafeEqual a b =
     (if length a \<noteq> length b then Inl TimingSafeEqualLength else Inr (a = b))"

text \<open>
  A JavaScript \<open>Map\<close> iterates in insertion order; \<open>set\<close> on a key that is present keeps
  the key's position and replaces the value, \<open>delete\<close> tells whether the key was present.
\<close>

type_synonym ('k, 'v) jsmap = "('k \<times> 'v) list"

fun Map_set :: "('k, 'v) jsmap \<Rightarrow> 'k \<Rightarrow> 'v \<Rightarrow> ('k, 'v) jsmap" where
  "Map_set [] k v = [(k, v)]"
| "Map_set ((k', v') # m) k v = (if k' = k then (k, v) # m else (k', v') # Map_set m k v)"

definition Map_has :: "('k, 'v) jsmap \<Rightarrow> 'k \<Rightarrow> bool" where
  "Map_has m k = (k \<in> fst ` set m)"

definition Map_delete :: "('k, 'v) jsmap \<Rightarrow> 'k \<Rightarrow> bool \<times> ('k, 'v) jsmap" where
  "Map_delete m k = (Map_has m k, filter (\<lambda>e. fst e \<noteq> k) m)"

definition Map_values :: "('k, 'v) jsmap \<Rightarrow> 'v list" where
  "Map_values m = map snd m"

section \<open>Types and state of the server module\<close>

record MountInfo =
  name :: string
  label :: string
  description :: "string option"
  prefix :: string
  skipAuth :: "bool option"

text \<open>The handler is an opaque callable of the extension: a type parameter.\<close>

record 'h MountConfig =
  name :: string
  label :: "string option"
  description :: "string option"
  prefix :: string
  handler :: 'h
  skipAuth :: "bool option"

record credentials =
  username :: string
  password :: string

text \<open>
  The \<open>http.Server\<close> object created by \<open>start\<close>: its request listener closes over the
  dashboard document and the port.
\<close>

record http_server =
  dashboardHtml :: string
  listenPort :: nat

record 'h module_state =
  server :: "http_server option"
  serverPort :: "nat option"
  mounts :: "(string, 'h MountConfig) jsmap"
  authCredentials :: "credentials option"
  apiToken :: "string option"
  apiReadToken :: "string option"

definition initial_state :: "'h module_state" where
  "initial_state =
     \<lparr>server = None, serverPort = None, mounts = [], authCredentials = None,
      apiToken = None, apiReadToken = None\<rparr>"

section \<open>Mount management\<close>

definition normalizePrefix :: "string \<Rightarrow> string" where
  "normalizePrefix p =
     (let prefix' = stripTrailingSlashes p
      in if \<not> startsWith prefix' ''/'' then ''/'' @ prefix' else prefix')"

definition mount :: "'h MountConfig \<Rightarrow> 'h module_state \<Rightarrow> 'h module_state" where
  "mount config s =
     s\<lparr>mounts := Map_set (mounts s) (name config)
          (config\<lparr>prefix := normalizePrefix (prefix config),
                  label := Some (case label config of None \<Rightarrow> name config | Some l \<Rightarrow> l)\<rparr>)\<rparr>"

definition unmount :: "string \<Rightarrow> 'h module_state \<Rightarrow> bool \<times> 'h module_state" where
  "unmount n s = (fst (Map_delete (mounts s) n), s\<lparr>mounts := snd (Map_delete (mounts s) n)\<rparr>)"

definition mountInfo :: "'h MountConfig \<Rightarrow> MountInfo" where
  "mountInfo m =
     \<lparr>MountInfo.name = name m,
      MountInfo.label = (case label m of None \<Rightarrow> name m | Some l \<Rightarrow> l),
      MountInfo.description = description m,
      MountInfo.prefix = prefix m,
      MountInfo.skipAuth = (if skipAuth m = Some True then Some True else None)\<rparr>"

definition getMounts :: "'h module_state \<Rightarrow> MountInfo list" where
  "getMounts s = map mountInfo (Map_values (mounts s))"

definition mountApi :: "'h MountConfig \<Rightarrow> 'h module_state \<Rightarrow> 'h module_state" where
  "mountApi config s = mount (config\<lparr>prefix := ''/api'' @ normalizePrefix (prefix config)\<rparr>) s"

definition unmountApi :: "string \<Rightarrow> 'h module_state \<Rightarrow> bool \<times> 'h module_state" where
  "unmountApi n s = unmount n s"

definition getApiMounts :: "'h module_state \<Rightarrow> MountInfo list" where
  "getApiMounts s = filter (\<lambda>m. startsWith (MountInfo.prefix m) ''/api'') (getMounts s)"

section \<open>Requests and responses\<close>

text \<open>
  A request as the listener sees it: the method, the \<open>pathname\<close> of the parsed URL and the
  \<open>Authorization\<close> header (\<open>None\<close> when the header is absent).
\<close>

record request =
  reqMethod :: string
  pathname :: string
  authorization :: "string option"

text \<open>
  The body of a response: what is given to \<open>res.end\<close>. \<open>JsonError m\<close> is
  \<open>JSON.stringify({ error: m })\<close>, \<open>JsonMounts\<close> the serialised mount list and
  \<open>JsonApiListing ms t r\<close> the object \<open>{ mounts: ms, tokenAuth: t, readTokenAuth: r }\<close>.
\<close>

datatype body =
  NoBody
| Html string
| JsonError string
| JsonMounts "MountInfo list"
| JsonApiListing "MountInfo list" bool bool

record response =
  status :: nat
  headers :: "(string \<times> string) list"
  body :: body

text \<open>
  \<open>res\<close> is the list of headers set on the response so far; \<open>writeHead\<close> followed by
  \<open>end\<close> completes the response.
\<close>

definition writeHead_end :: "(string \<times> string) list \<Rightarrow> nat \<Rightarrow> (string \<times> string) list \<Rightarrow> body \<Rightarrow> response" where
  "writeHead_end res code hs b = \<lparr>status = code, headers = res @ hs, body = b\<rparr>"

definition corsHeaders :: "(string \<times> string) list" where
  "corsHeaders =
     [(''Access-Control-Allow-Origin'', ''*''),
      (''Access-Control-Allow-Methods'', ''GET, POST, PATCH, PUT, DELETE, OPTIONS''),
      (''Access-Control-Allow-Headers'', ''Content-Type, Authorization'')]"

definition jsonType :: "string \<times> string" where
  "jsonType = (''Content-Type'', ''application/json'')"

text \<open>
  A gate returns \<open>true\<close> without touching the response (\<open>Pass\<close>), or writes a response and
  returns \<open>false\<close> (\<open>Reject\<close>).
\<close>

datatype gate = Pass | Reject response

section \<open>Auth\<close>

definition setAuth :: "(string option \<times> string) option \<Rightarrow> 'h module_state \<Rightarrow> 'h module_state" where
  "setAuth config s =
     s\<lparr>authCredentials :=
         (case config of
            None \<Rightarrow> None
          | Some (u, p) \<Rightarrow>
              Some \<lparr>username = (case u of None \<Rightarrow> ''pi'' | Some n \<Rightarrow> n), password = p\<rparr>)\<rparr>"

text \<open>\<open>getAuth\<close>: \<open>None\<close> is \<open>{ enabled: false }\<close>, \<open>Some u\<close> is \<open>{ username: u, enabled: true }\<close>.\<close>

definition getAuth :: "'h module_state \<Rightarrow> string option" where
  "getAuth s = (case authCredentials s of None \<Rightarrow> None | Some c \<Rightarrow> Some (username c))"

definition setApiToken :: "string option \<Rightarrow> 'h module_state \<Rightarrow> 'h module_state" where
  "setApiToken token s = s\<lparr>apiToken := token\<rparr>"

definition setApiReadToken :: "string option \<Rightarrow> 'h module_state \<Rightarrow> 'h module_state" where
  "setApiReadToken token s = s\<lparr>apiReadToken := token\<rparr>"

record token_status =
  enabled :: bool
  readEnabled :: bool

definition getApiTokenStatus :: "'h module_state \<Rightarrow> token_status" where
  "getApiTokenStatus s = \<lparr>enabled = (apiToken s \<noteq> None), readEnabled = (apiReadToken s \<noteq> None)\<rparr>"

definition tokensEqual :: "string option \<Rightarrow> string option \<Rightarrow> error + bool" where
  "tokensEqual a b =
     (if falsy a \<or> falsy b then Inr False
      else
        (case (a, b) of
           (Some x, Some y) \<Rightarrow>
             (let bufA = Buffer_from x; bufB = Buffer_from y
              in if length bufA \<noteq> length bufB then Inr False else timingSafeEqual bufA bufB)
         | _ \<Rightarrow> Inr False))"

text \<open>\<open>header?.startsWith("Bearer ") ? header.slice(7) : null\<close>\<close>

definition bearerOf :: "request \<Rightarrow> string option" where
  "bearerOf rq =
     (case authorization rq of
        None \<Rightarrow> None
      | Some header \<Rightarrow> if startsWith header ''Bearer '' then Some (slice_from header 7) else None)"

definition readOnly403 :: "(string \<times> string) list \<Rightarrow> response" where
  "readOnly403 res =
     writeHead_end res 403 [jsonType] (JsonError ''Read-only token cannot be used for write requests'')"

definition token401 :: "(string \<times> string) list \<Rightarrow> response" where
  "token401 res = writeHead_end res 401 [jsonType] (JsonError ''Invalid or missing API token'')"

definition checkApiAuth :: "'h module_state \<Rightarrow> request \<Rightarrow> (string \<times> string) list \<Rightarrow> error + gate" where
  "checkApiAuth s rq res =
     (if falsy (apiToken s) \<and> falsy (apiReadToken s) then Inr Pass
      else
        (let bearer = bearerOf rq;
             isRead = (reqMethod rq = ''GET'' \<or> reqMethod rq = ''HEAD'')
         in case tokensEqual bearer (apiToken s) of
              Inl e \<Rightarrow> Inl e
            | Inr True \<Rightarrow> Inr Pass
            | Inr False \<Rightarrow>
                (case tokensEqual bearer (apiReadToken s) of
                   Inl e \<Rightarrow> Inl e
                 | Inr True \<Rightarrow> if isRead then Inr Pass else Inr (Reject (readOnly403 res))
                 | Inr False \<Rightarrow> Inr (Reject (token401 res)))))"

definition basic401 :: "(string \<times> string) list \<Rightarrow> response" where
  "basic401 res =
     writeHead_end res 401
       [(''WWW-Authenticate'', ''Basic realm='' @ [CHR 0x22] @ ''pi web server'' @ [CHR 0x22]), jsonType]
       (JsonError ''Unauthorized'')"

text \<open>
  \<open>decodeBase64 x\<close> stands for \<open>Buffer.from(x, "base64").toString()\<close> of the runtime, which
  returns a string for every input; it is a parameter of the model.
\<close>

definition checkAuth :: "(string \<Rightarrow> string) \<Rightarrow> 'h module_state \<Rightarrow> request \<Rightarrow> (string \<times> string) list \<Rightarrow> gate" where
  "checkAuth decodeBase64 s rq res =
     (case authCredentials s of
        None \<Rightarrow> Pass
      | Some cred \<Rightarrow>
          (case authorization rq of
             None \<Rightarrow> Reject (basic401 res)
           | Some header \<Rightarrow>
               if startsWith header ''Basic '' then
                 (let decoded = decodeBase64 (slice_from header 6)
                  in case indexOf decoded CHR '':'' of
                       None \<Rightarrow> Reject (basic401 res)
                     | Some colon \<Rightarrow>
                         (let user = slice_to decoded colon;
                              pass = slice_from decoded (colon + 1)
                          in if user = username cred \<and> pass = password cred then Pass
                             else Reject (basic401 res)))
               else Reject (basic401 res)))"

section \<open>The request listener\<close>

definition isApiPath :: "string \<Rightarrow> bool" where
  "isApiPath p = (p = ''/api'' \<or> startsWith p ''/api/'')"

definition matchesMount :: "string \<Rightarrow> 'h MountConfig \<Rightarrow> bool" where
  "matchesMount p config = (p = prefix config \<or> startsWith p (prefix config @ ''/''))"

text \<open>
  The router loop over \<open>mounts.values()\<close>; the third argument is \<open>bestMatch\<close>, \<open>None\<close> for
  \<open>null\<close>.
\<close>

fun bestMatchLoop :: "'h MountConfig list \<Rightarrow> string \<Rightarrow> 'h MountConfig option \<Rightarrow> 'h MountConfig option" where
  "bestMatchLoop [] p bestMatch = bestMatch"
| "bestMatchLoop (config # rest) p bestMatch =
     bestMatchLoop rest p
       (if matchesMount p config then
          (case bestMatch of
             None \<Rightarrow> Some config
           | Some b \<Rightarrow> if length (prefix config) > length (prefix b) then Some config else Some b)
        else bestMatch)"

text \<open>\<open>pathname.slice(bestMatch.prefix.length) || "/"\<close>\<close>

definition subPathOf :: "string \<Rightarrow> 'h MountConfig \<Rightarrow> string" where
  "subPathOf p bm = (let r = slice_from p (length (prefix bm)) in if r = [] then ''/'' else r)"

text \<open>The router: the selected mount together with the sub-path its handler is given.\<close>

definition route :: "'h MountConfig list \<Rightarrow> string \<Rightarrow> ('h MountConfig \<times> string) option" where
  "route ms p = map_option (\<lambda>bm. (bm, subPathOf p bm)) (bestMatchLoop ms p None)"

text \<open>
  What the listener does with a request: it completes a response itself, or it calls the
  handler of a mount with the request and a sub-path. What the handler then writes is the
  extension's business and is not part of the model.
\<close>

datatype 'h outcome = Respond response | Invoke "'h MountConfig" string

definition error500 :: "(string \<times> string) list \<Rightarrow> error \<Rightarrow> response" where
  "error500 res e = writeHead_end res 500 [jsonType] (JsonError (message e))"

definition notFound404 :: "(string \<times> string) list \<Rightarrow> response" where
  "notFound404 res = writeHead_end res 404 [jsonType] (JsonError ''Not found'')"

text \<open>
  \<open>if (!checkApiAuth(req, res)) return;\<close> inside the \<open>try\<close> block, followed by \<open>k\<close>: an
  exception is caught and answered with a 500, a rejection ends the request with the
  response the gate wrote.
\<close>

definition apiAuthThen :: "(string \<times> string) list \<Rightarrow> error + gate \<Rightarrow> 'h outcome \<Rightarrow> 'h outcome" where
  "apiAuthThen res g k =
     (case g of
        Inl e \<Rightarrow> Respond (error500 res e)
      | Inr (Reject r) \<Rightarrow> Respond r
      | Inr Pass \<Rightarrow> k)"

definition requestListener :: "(string \<Rightarrow> string) \<Rightarrow> string \<Rightarrow> 'h module_state \<Rightarrow> request \<Rightarrow> 'h outcome" where
  "requestListener decodeBase64 dashboard s rq =
     (let p = pathname rq; res = corsHeaders
      in if reqMethod rq = ''OPTIONS'' then Respond (writeHead_end res 204 [] NoBody)
         else
           (case (if \<not> isApiPath p then checkAuth decodeBase64 s rq res else Pass) of
              Reject r \<Rightarrow> Respond r
            | Pass \<Rightarrow>
                if p = ''/api'' \<or> p = ''/api/'' then
                  apiAuthThen res (checkApiAuth s rq res)
                    (Respond (writeHead_end res 200 [jsonType]
                       (JsonApiListing (getApiMounts s) (apiToken s \<noteq> None) (apiReadToken s \<noteq> None))))
                else if p = ''/'' \<or> p = [] then
                  Respond (writeHead_end res 200 [(''Content-Type'', ''text/html; charset=utf-8'')]
                    (Html dashboard))
                else if p = ''/_api/mounts'' then
                  Respond (writeHead_end res 200 [jsonType] (JsonMounts (getMounts s)))
                else
                  (case route (Map_values (mounts s)) p of
                     Some (bm, subPath) \<Rightarrow>
                       (if isApiPath p \<and> skipAuth bm \<noteq> Some True then
                          apiAuthThen res (checkApiAuth s rq res) (Invoke bm subPath)
                        else Invoke bm subPath)
                   | None \<Rightarrow>
                       (if isApiPath p then
                          apiAuthThen res (checkApiAuth s rq res) (Respond (notFound404 res))
                        else Respond (notFound404 res)))))"

section \<open>Server lifecycle\<close>

definition isRunning :: "'h module_state \<Rightarrow> bool" where
  "isRunning s = (server s \<noteq> None)"

fun decimal :: "nat \<Rightarrow> string" where
  "decimal n =
     (if n < 10 then [''0123456789'' ! n]
      else decimal (n div 10) @ [''0123456789'' ! (n mod 10)])"

declare decimal.simps [simp del]

definition urlOf :: "nat \<Rightarrow> string" where
  "urlOf port = ''http://localhost:'' @ decimal port"

text \<open>\<open>serverPort ? `http://localhost:${serverPort}` : null\<close>: the port \<open>0\<close> is falsy.\<close>

definition getUrl :: "'h module_state \<Rightarrow> string option" where
  "getUrl s =
     (case serverPort s of
        None \<Rightarrow> None
      | Some port \<Rightarrow> if port = 0 then None else Some (urlOf port))"

definition getPort :: "'h module_state \<Rightarrow> nat option" where
  "getPort s = serverPort s"

definition stop :: "'h module_state \<Rightarrow> bool \<times> 'h module_state" where
  "stop s =
     (if server s = None then (False, s)
      else (True, s\<lparr>server := None, serverPort := None\<rparr>))"

text \<open>
  \<open>start(port)\<close>; the port defaults to 4100. The two further arguments are what the
  environment does: \<open>dashboardFile\<close> is the content of the dashboard file (\<open>None\<close> when
  \<open>readFileSync\<close> throws) and \<open>listenThrows\<close> tells whether \<open>server.listen\<close> throws.
  The result is the exception or the URL, with the state the call leaves behind.
\<close>

datatype start_error = ReadFileFailed | ListenFailed

definition start :: "nat option \<Rightarrow> string option \<Rightarrow> bool \<Rightarrow> 'h module_state \<Rightarrow> (start_error + string) \<times> 'h module_state" where
  "start portArg dashboardFile listenThrows s =
     (let port = (case portArg of None \<Rightarrow> 4100 | Some n \<Rightarrow> n);
          s1 = (if server s \<noteq> None then snd (stop s) else s)
      in case dashboardFile of
           None \<Rightarrow> (Inl ReadFileFailed, s1)
         | Some html \<Rightarrow>
             (let s2 = s1\<lparr>server := Some \<lparr>dashboardHtml = html, listenPort = port\<rparr>\<rparr>
              in if listenThrows then (Inl ListenFailed, s2)
                 else (Inr (urlOf port), s2\<lparr>serverPort := Some port\<rparr>)))"

section \<open>Sequences of calls\<close>

text \<open>The exported operations that change the state of the module.\<close>

datatype 'h action =
  Mount "'h MountConfig"
| Unmount string
| MountApi "'h MountConfig"
| UnmountApi string
| SetAuth "(string option \<times> string) option"
| SetApiToken "string option"
| SetApiReadToken "string option"
| Start "nat option" "string option" bool
| Stop

fun exec :: "'h action \<Rightarrow> 'h module_state \<Rightarrow> 'h module_state" where
  "exec (Mount config) s = mount config s"
| "exec (Unmount n) s = snd (unmount n s)"
| "exec (MountApi config) s = mountApi config s"
| "exec (UnmountApi n) s = snd (unmountApi n s)"
| "exec (SetAuth config) s = setAuth config s"
| "exec (SetApiToken token) s = setApiToken token s"
| "exec (SetApiReadToken token) s = setApiReadToken token s"
| "exec (Start portArg dashboardFile listenThrows) s = snd (start portArg dashboardFile listenThrows s)"
| "exec Stop s = snd (stop s)"

text \<open>The state after a sequence of calls, from the state the module is loaded with.\<close>

definition run :: "'h action list \<Rightarrow> 'h module_state" where
  "run acts = fold exec acts initial_state"

section \<open>The decision table of the token gate, as specified\<close>

datatype decision = Allowed | ReadOnlyViolation | Unauthorized

text \<open>
  The specified decision, from the configured tokens (\<open>None\<close> for a token that is not
  set), the bearer value of the request (\<open>None\<close> when there is none) and the method: open
  when no token is configured, any method for the full token, \<open>GET\<close> and \<open>HEAD\<close> for the
  read token. An absent or empty bearer value matches no token.
\<close>

definition specTokenGate :: "string option \<Rightarrow> string option \<Rightarrow> string option \<Rightarrow> string \<Rightarrow> decision" where
  "specTokenGate fullToken readToken bearer m =
     (if fullToken = None \<and> readToken = None then Allowed
      else if bearer \<noteq> None \<and> bearer \<noteq> Some [] \<and> bearer = fullToken then Allowed
      else if bearer \<noteq> None \<and> bearer \<noteq> Some [] \<and> bearer = readToken then
        (if m = ''GET'' \<or> m = ''HEAD'' then Allowed else ReadOnlyViolation)
      else Unauthorized)"

text \<open>The decision that a result of \<open>checkApiAuth\<close> stands for.\<close>

definition decisionOf :: "error + gate \<Rightarrow> decision option" where
  "decisionOf g =
     (case g of
        Inl e \<Rightarrow> None
      | Inr Pass \<Rightarrow> Some Allowed
      | Inr (Reject r) \<Rightarrow>
          if status r = 403 then Some ReadOnlyViolation
          else if status r = 401 then Some Unauthorized
          else None)"

section \<open>Example registrations and requests\<close>

definition mountConfig :: "string \<Rightarrow> string \<Rightarrow> bool option \<Rightarrow> nat \<Rightarrow> nat MountConfig" where
  "mountConfig n p sk h =
     \<lparr>name = n, label = None, description = None, prefix = p, handler = h, skipAuth = sk\<rparr>"

definition mkRequest :: "string \<Rightarrow> string \<Rightarrow> string option \<Rightarrow> request" where
  "mkRequest m p a = \<lparr>reqMethod = m, pathname = p, authorization = a\<rparr>"

section \<open>The router\<close>

lemma bestMatchLoop_append:
  "bestMatchLoop (xs @ ys) p b = bestMatchLoop ys p (bestMatchLoop xs p b)"
  by (induction xs arbitrary: b) simp_all

lemma bestMatchLoop_snoc:
  "bestMatchLoop (xs @ [x]) p b =
     (if matchesMount p x then
        (case bestMatchLoop xs p b of
           None \<Rightarrow> Some x
         | Some c \<Rightarrow> if length (prefix x) > length (prefix c) then Some x else Some c)
      else bestMatchLoop xs p b)"
  by (simp add: bestMatchLoop_append)

lemma bestMatchLoop_None:
  "bestMatchLoop ms p None = None \<longleftrightarrow> (\<forall>c \<in> set ms. \<not> matchesMount p c)"
proof (induction ms rule: rev_induct)
  case Nil
  show ?case by simp
next
  case (snoc x xs)
  show ?case
    using snoc.IH by (auto simp: bestMatchLoop_snoc split: option.splits)
qed

lemma bestMatchLoop_Some:
  "bestMatchLoop ms p None = Some c \<Longrightarrow>
     \<exists>i < length ms. ms ! i = c \<and> matchesMount p c
        \<and> (\<forall>j < length ms. matchesMount p (ms ! j) \<longrightarrow> length (prefix (ms ! j)) \<le> length (prefix c))
        \<and> (\<forall>j < i. matchesMount p (ms ! j) \<longrightarrow> length (prefix (ms ! j)) < length (prefix c))"
proof (induction ms arbitrary: c rule: rev_induct)
  case Nil
  then show ?case by simp
next
  case (snoc x xs)
  show ?case
  proof (cases "matchesMount p x")
    case False
    with snoc.prems have "bestMatchLoop xs p None = Some c"
      by (simp add: bestMatchLoop_snoc)
    from snoc.IH[OF this] obtain i where i: "i < length xs" "xs ! i = c" "matchesMount p c"
      "\<forall>j < length xs. matchesMount p (xs ! j) \<longrightarrow> length (prefix (xs ! j)) \<le> length (prefix c)"
      "\<forall>j < i. matchesMount p (xs ! j) \<longrightarrow> length (prefix (xs ! j)) < length (prefix c)"
      by blast
    show ?thesis
      apply (rule exI[of _ i])
      using i False by (auto simp: nth_append less_Suc_eq)
  next
    case True
    show ?thesis
    proof (cases "bestMatchLoop xs p None")
      case None
      with True snoc.prems have c: "c = x" by (simp add: bestMatchLoop_snoc)
      from None have "\<forall>c \<in> set xs. \<not> matchesMount p c" by (simp add: bestMatchLoop_None)
      then have no: "\<forall>j < length xs. \<not> matchesMount p (xs ! j)" by simp
      show ?thesis
        apply (rule exI[of _ "length xs"])
        using c True no by (auto simp: nth_append less_Suc_eq)
    next
      case (Some b)
      from snoc.IH[OF this] obtain i where i: "i < length xs" "xs ! i = b" "matchesMount p b"
        "\<forall>j < length xs. matchesMount p (xs ! j) \<longrightarrow> length (prefix (xs ! j)) \<le> length (prefix b)"
        "\<forall>j < i. matchesMount p (xs ! j) \<longrightarrow> length (prefix (xs ! j)) < length (prefix b)"
        by blast
      show ?thesis
      proof (cases "length (prefix x) > length (prefix b)")
        case gt: True
        with True Some snoc.prems have c: "c = x" by (simp add: bestMatchLoop_snoc)
        show ?thesis
          apply (rule exI[of _ "length xs"])
          using c True gt i by (fastforce simp: nth_append less_Suc_eq)
      next
        case le: False
        with True Some snoc.prems have c: "c = b" by (simp add: bestMatchLoop_snoc)
        show ?thesis
          apply (rule exI[of _ i])
          using c True le i by (auto simp: nth_append less_Suc_eq)
      qed
    qed
  qed
qed

lemma matchesMount_split:
  "matchesMount p c \<Longrightarrow> p = prefix c @ slice_from p (length (prefix c))"
  unfolding matchesMount_def startsWith_def slice_from_def
  by (metis append_eq_conv_conj append.assoc append_Nil2)

lemma route_None: "route ms p = None \<longleftrightarrow> (\<forall>c \<in> set ms. \<not> matchesMount p c)"
  by (simp add: route_def bestMatchLoop_None)

lemma route_Some:
  "route ms p = Some (c, sub) \<longleftrightarrow> bestMatchLoop ms p None = Some c \<and> sub = subPathOf p c"
  by (auto simp: route_def)



section \<open>Token comparison and the token gate\<close>

lemma utf8_bytes_cancel:
  fixes n m :: nat
  assumes "(if n < 128 then [n] else [192 + n div 64, 128 + n mod 64]) @ r1 =
           (if m < 128 then [m] else [192 + m div 64, 128 + m mod 64]) @ r2"
    and "n < 256" and "m < 256"
  shows "n = m \<and> r1 = r2"
proof (cases "n < 128")
  case True
  then show ?thesis using assms by (auto split: if_splits)
next
  case False
  then have m: "\<not> m < 128" using assms by (auto split: if_splits)
  from False m assms have "n div 64 = m div 64" "n mod 64 = m mod 64" "r1 = r2" by auto
  then show ?thesis by (metis div_mult_mod_eq)
qed

lemma utf8_unit_cancel:
  assumes "utf8_unit c @ r1 = utf8_unit d @ r2"
  shows "c = d \<and> r1 = r2"
proof -
  have "(of_char c :: nat) = of_char d \<and> r1 = r2"
    using assms unfolding utf8_unit_def Let_def
    by (intro utf8_bytes_cancel) simp_all
  then show ?thesis by simp
qed

lemma Buffer_from_Nil_iff: "Buffer_from x = [] \<longleftrightarrow> x = []"
  by (cases x) (auto simp: Buffer_from_def utf8_unit_def Let_def)

lemma Buffer_from_inj: "Buffer_from x = Buffer_from y \<Longrightarrow> x = y"
proof (induction x arbitrary: y)
  case Nil
  then show ?case using Buffer_from_Nil_iff[of y] by (simp add: Buffer_from_def)
next
  case (Cons c cs)
  show ?case
  proof (cases y)
    case Nil
    with Cons.prems show ?thesis using Buffer_from_Nil_iff[of "c # cs"] by (simp add: Buffer_from_def)
  next
    case (Cons d ds)
    with Cons.prems have "utf8_unit c @ Buffer_from cs = utf8_unit d @ Buffer_from ds"
      by (simp add: Buffer_from_def)
    then have "c = d \<and> Buffer_from cs = Buffer_from ds" by (rule utf8_unit_cancel)
    with Cons.IH Cons show ?thesis by blast
  qed
qed

lemma tokensEqual_eq:
  "tokensEqual a b = Inr (\<exists>t. t \<noteq> [] \<and> a = Some t \<and> b = Some t)"
proof (cases a)
  case None
  then show ?thesis by (simp add: tokensEqual_def falsy_def)
next
  case (Some x)
  note a = this
  show ?thesis
  proof (cases b)
    case None
    then show ?thesis by (simp add: tokensEqual_def falsy_def)
  next
    case (Some y)
    show ?thesis
      using a Some Buffer_from_inj[of x y]
      by (auto simp: tokensEqual_def falsy_def timingSafeEqual_def Let_def)
  qed
qed

lemma checkApiAuth_cases:
  assumes "tokensEqual (bearerOf rq) (apiToken s) = Inr A"
    and "tokensEqual (bearerOf rq) (apiReadToken s) = Inr B"
  shows "checkApiAuth s rq res =
     Inr (if falsy (apiToken s) \<and> falsy (apiReadToken s) then Pass
          else if A then Pass
          else if B then
            (if reqMethod rq = ''GET'' \<or> reqMethod rq = ''HEAD'' then Pass else Reject (readOnly403 res))
          else Reject (token401 res))"
  using assms by (cases A; cases B; simp add: checkApiAuth_def)

lemma checkApiAuth_eq:
  "checkApiAuth s rq res =
     Inr (if falsy (apiToken s) \<and> falsy (apiReadToken s) then Pass
          else if \<exists>t. t \<noteq> [] \<and> bearerOf rq = Some t \<and> apiToken s = Some t then Pass
          else if \<exists>t. t \<noteq> [] \<and> bearerOf rq = Some t \<and> apiReadToken s = Some t then
            (if reqMethod rq = ''GET'' \<or> reqMethod rq = ''HEAD'' then Pass else Reject (readOnly403 res))
          else Reject (token401 res))"
  by (rule checkApiAuth_cases) (rule tokensEqual_eq)+

text \<open>
  Where neither token is the empty string, the gate never raises and decides as the
  specified table does.
\<close>

lemma checkApiAuth_refines_spec:
  assumes "apiToken s \<noteq> Some []" and "apiReadToken s \<noteq> Some []"
  shows "decisionOf (checkApiAuth s rq res)
     = Some (specTokenGate (apiToken s) (apiReadToken s) (bearerOf rq) (reqMethod rq))"
proof -
  have f: "falsy (apiToken s) \<longleftrightarrow> apiToken s = None"
    "falsy (apiReadToken s) \<longleftrightarrow> apiReadToken s = None"
    using assms by (simp_all add: falsy_def)
  have e: "(\<exists>t. t \<noteq> [] \<and> bearerOf rq = Some t \<and> apiToken s = Some t)
      \<longleftrightarrow> bearerOf rq \<noteq> None \<and> bearerOf rq \<noteq> Some [] \<and> bearerOf rq = apiToken s"
    "(\<exists>t. t \<noteq> [] \<and> bearerOf rq = Some t \<and> apiReadToken s = Some t)
      \<longleftrightarrow> bearerOf rq \<noteq> None \<and> bearerOf rq \<noteq> Some [] \<and> bearerOf rq = apiReadToken s"
    by auto
  have d: "decisionOf (Inr (if N then Pass else if A then Pass
                 else if B then (if R then Pass else Reject (readOnly403 res))
                 else Reject (token401 res)))
      = Some (if N then Allowed else if A then Allowed
              else if B then (if R then Allowed else ReadOnlyViolation) else Unauthorized)"
    for N A B R
    by (simp add: decisionOf_def readOnly403_def token401_def writeHead_end_def)
  show ?thesis
    unfolding checkApiAuth_eq f e specTokenGate_def by (rule d)
qed

text \<open>
  Claim C2. After \<open>setApiToken("")\<close> a full token is configured: the token is not \<open>null\<close>,
  \<open>getApiTokenStatus()\<close> reports it as enabled and the listing at \<open>/api\<close> reports
  \<open>tokenAuth: true\<close>. The specified gate answers a request without a bearer value with the
  401. The gate of the code tests the tokens with \<open>!apiToken && !apiReadToken\<close>, takes the
  empty string for an absent token and lets the request pass, whatever its method: the
  handler of an API mount is called and the listing is served without any token.
\<close>

theorem token_gate_open_for_empty_token:
  "apiToken (run [SetApiToken (Some ''''), MountApi (mountConfig ''chat'' ''/chat'' None 11)]) = Some ''''
   \<and> enabled (getApiTokenStatus
        (run [SetApiToken (Some ''''), MountApi (mountConfig ''chat'' ''/chat'' None 11)]))
   \<and> specTokenGate (Some '''') None (bearerOf (mkRequest ''POST'' ''/api/chat'' None)) ''POST''
       = Unauthorized
   \<and> decisionOf (checkApiAuth
        (run [SetApiToken (Some ''''), MountApi (mountConfig ''chat'' ''/chat'' None 11)])
        (mkRequest ''POST'' ''/api/chat'' None) corsHeaders) = Some Allowed
   \<and> requestListener (\<lambda>x. x) ''<html>''
        (run [SetApiToken (Some ''''), MountApi (mountConfig ''chat'' ''/chat'' None 11)])
        (mkRequest ''POST'' ''/api/chat'' None)
       = Invoke \<lparr>name = ''chat'', label = Some ''chat'', description = None, prefix = ''/api/chat'',
                 handler = 11, skipAuth = None\<rparr> ''/''
   \<and> requestListener (\<lambda>x. x) ''<html>''
        (run [SetApiToken (Some ''''), MountApi (mountConfig ''chat'' ''/chat'' None 11)])
        (mkRequest ''GET'' ''/api'' None)
       = Respond (writeHead_end corsHeaders 200 [jsonType]
           (JsonApiListing
              [\<lparr>MountInfo.name = ''chat'', MountInfo.label = ''chat'', MountInfo.description = None,
                MountInfo.prefix = ''/api/chat'', MountInfo.skipAuth = None\<rparr>] True False))"
proof -
  let ?chat = "\<lparr>name = ''chat'', label = Some ''chat'', description = None, prefix = ''/api/chat'',
                 handler = 11 :: nat, skipAuth = None\<rparr>"
  let ?s = "run [SetApiToken (Some ''''), MountApi (mountConfig ''chat'' ''/chat'' None 11)]"
  let ?st = "\<lparr>server = None, serverPort = None, mounts = [(''chat'', ?chat)],
      authCredentials = None, apiToken = Some '''', apiReadToken = None\<rparr>"
  have n: "normalizePrefix ''/chat'' = ''/chat''" "normalizePrefix ''/api/chat'' = ''/api/chat''"
    by (simp_all add: normalizePrefix_def stripTrailingSlashes_def startsWith_def)
  have s: "?s = ?st"
    by (simp add: run_def mount_def mountApi_def setApiToken_def mountConfig_def initial_state_def n)
  have t: "apiToken ?s = Some ''''" "enabled (getApiTokenStatus ?s)"
    by (simp_all add: s getApiTokenStatus_def)
  have sp: "specTokenGate (Some '''') None (bearerOf (mkRequest ''POST'' ''/api/chat'' None)) ''POST''
       = Unauthorized"
    by (simp add: specTokenGate_def bearerOf_def mkRequest_def)
  have g: "checkApiAuth ?st rq corsHeaders = Inr Pass" for rq
    by (simp add: checkApiAuth_def falsy_def)
  have d: "decisionOf (checkApiAuth ?s (mkRequest ''POST'' ''/api/chat'' None) corsHeaders) = Some Allowed"
    unfolding s g by (simp add: decisionOf_def)
  have a: "isApiPath ''/api/chat''" "isApiPath ''/api''"
    by (simp_all add: isApiPath_def startsWith_def)
  have r: "route [?chat] ''/api/chat'' = Some (?chat, ''/'')"
    by (simp add: route_def matchesMount_def subPathOf_def slice_from_def)
  have l1: "requestListener (\<lambda>x. x) ''<html>'' ?s (mkRequest ''POST'' ''/api/chat'' None)
       = Invoke ?chat ''/''"
    unfolding s
    by (simp add: requestListener_def Let_def mkRequest_def a r g Map_values_def apiAuthThen_def)
  have l2: "requestListener (\<lambda>x. x) ''<html>'' ?s (mkRequest ''GET'' ''/api'' None)
       = Respond (writeHead_end corsHeaders 200 [jsonType]
           (JsonApiListing
              [\<lparr>MountInfo.name = ''chat'', MountInfo.label = ''chat'', MountInfo.description = None,
                MountInfo.prefix = ''/api/chat'', MountInfo.skipAuth = None\<rparr>] True False))"
    unfolding s
    by (simp add: requestListener_def Let_def mkRequest_def a g apiAuthThen_def getApiMounts_def
        getMounts_def Map_values_def mountInfo_def startsWith_def)
  from t sp d l1 l2 show ?thesis by simp
qed

section \<open>The session gate\<close>

lemma indexOf_None: "indexOf d c = None \<longleftrightarrow> c \<notin> set d"
  by (induction d) auto

lemma indexOf_Some:
  "indexOf d c = Some i \<longleftrightarrow> i < length d \<and> d ! i = c \<and> c \<notin> set (take i d)"
proof (induction d arbitrary: i)
  case Nil
  show ?case by simp
next
  case (Cons x xs)
  show ?case
  proof (cases "x = c")
    case True
    then show ?thesis by (cases i) auto
  next
    case False
    then show ?thesis using Cons.IH by (cases i) auto
  qed
qed

lemma split_at_first:
  "(\<exists>i. indexOf d c = Some i \<and> slice_to d i = u \<and> slice_from d (i + 1) = w)
     \<longleftrightarrow> d = u @ [c] @ w \<and> c \<notin> set u"
proof
  assume "\<exists>i. indexOf d c = Some i \<and> slice_to d i = u \<and> slice_from d (i + 1) = w"
  then obtain i where i: "i < length d" "d ! i = c" "c \<notin> set (take i d)"
    and u: "take i d = u" and w: "drop (Suc i) d = w"
    by (auto simp: indexOf_Some slice_to_def slice_from_def)
  from i(1) have "d = take i d @ [d ! i] @ drop (Suc i) d"
    by (simp add: id_take_nth_drop)
  with i u w show "d = u @ [c] @ w \<and> c \<notin> set u" by simp
next
  assume a: "d = u @ [c] @ w \<and> c \<notin> set u"
  then have "indexOf d c = Some (length u)"
    by (simp add: indexOf_Some nth_append)
  moreover from a have "slice_to d (length u) = u" "slice_from d (length u + 1) = w"
    by (simp_all add: slice_to_def slice_from_def)
  ultimately show "\<exists>i. indexOf d c = Some i \<and> slice_to d i = u \<and> slice_from d (i + 1) = w"
    by blast
qed

lemma startsWith_iff: "startsWith s p \<longleftrightarrow> (\<exists>x. s = p @ x)"
  unfolding startsWith_def by (metis append_eq_conv_conj append_take_drop_id)

lemma checkAuth_Pass_iff:
  "checkAuth dec s rq res = Pass \<longleftrightarrow>
     (case authCredentials s of
        None \<Rightarrow> True
      | Some cred \<Rightarrow>
          (\<exists>x. authorization rq = Some (''Basic '' @ x)
             \<and> dec x = username cred @ '':'' @ password cred
             \<and> CHR '':'' \<notin> set (username cred)))"
proof (cases "authCredentials s")
  case None
  then show ?thesis by (simp add: checkAuth_def)
next
  case (Some cred)
  show ?thesis
  proof (cases "authorization rq")
    case None
    with Some show ?thesis by (simp add: checkAuth_def)
  next
    case hd: (Some header)
    show ?thesis
    proof (cases "startsWith header ''Basic ''")
      case False
      then have "\<not> (\<exists>x. header = ''Basic '' @ x)" by (simp only: startsWith_iff not_False_eq_True)
      with Some hd False show ?thesis by (auto simp: checkAuth_def)
    next
      case True
      then obtain x where x: "header = ''Basic '' @ x" using startsWith_iff by blast
      have sl: "slice_from header 6 = x" by (simp add: x slice_from_def)
      let ?d = "dec x"
      have "checkAuth dec s rq res = Pass \<longleftrightarrow>
            (\<exists>i. indexOf ?d CHR '':'' = Some i \<and> slice_to ?d i = username cred
                 \<and> slice_from ?d (i + 1) = password cred)"
        using Some hd True sl by (auto simp: checkAuth_def Let_def split: option.splits)
      also have "\<dots> \<longleftrightarrow> ?d = username cred @ '':'' @ password cred \<and> CHR '':'' \<notin> set (username cred)"
        by (rule split_at_first)
      finally show ?thesis using Some hd x by simp
    qed
  qed
qed

lemma checkAuth_result: "checkAuth dec s rq res = Pass \<or> checkAuth dec s rq res = Reject (basic401 res)"
  by (simp add: checkAuth_def Let_def split: option.splits)

text \<open>
  Claim C5. With no session credentials the gate lets every request pass. With credentials
  it lets a request pass exactly when the \<open>Authorization\<close> header is \<open>Basic\<close> followed by a
  value whose decoding is the configured username, a colon and the configured password,
  the colon being the first one of the decoded value (so the password may contain colons).
  Every other request, whatever is wrong with its header, gets one and the same response:
  status 401, the \<open>WWW-Authenticate\<close> realm challenge and the \<open>Unauthorized\<close> error body.
\<close>

theorem checkAuth_decision:
  "checkAuth dec s rq res =
     (case authCredentials s of
        None \<Rightarrow> Pass
      | Some cred \<Rightarrow>
          if \<exists>x. authorization rq = Some (''Basic '' @ x)
               \<and> dec x = username cred @ '':'' @ password cred
               \<and> CHR '':'' \<notin> set (username cred)
          then Pass else Reject (basic401 res))
   \<and> status (basic401 res) = 401
   \<and> (''WWW-Authenticate'', ''Basic realm='' @ [CHR 0x22] @ ''pi web server'' @ [CHR 0x22])
        \<in> set (headers (basic401 res))
   \<and> body (basic401 res) = JsonError ''Unauthorized''"
proof (intro conjI)
  show "checkAuth dec s rq res =
     (case authCredentials s of
        None \<Rightarrow> Pass
      | Some cred \<Rightarrow>
          if \<exists>x. authorization rq = Some (''Basic '' @ x)
               \<and> dec x = username cred @ '':'' @ password cred
               \<and> CHR '':'' \<notin> set (username cred)
          then Pass else Reject (basic401 res))"
    using checkAuth_Pass_iff[of dec s rq res] checkAuth_result[of dec s rq res]
    by (cases "authCredentials s") auto
qed (simp_all add: basic401_def writeHead_end_def)

theorem checkAuth_decision_witness:
  "checkAuth (\<lambda>x. if x = ''cGk6czplY3JldA=='' then ''pi:s:ecret'' else if x = ''cGk6d3Jvbmc='' then ''pi:wrong'' else ''nocolon'')
      (setAuth (Some (None, ''s:ecret'')) (initial_state :: nat module_state))
      (mkRequest ''GET'' ''/'' (Some ''Basic cGk6czplY3JldA=='')) corsHeaders = Pass
   \<and> checkAuth (\<lambda>x. if x = ''cGk6czplY3JldA=='' then ''pi:s:ecret'' else if x = ''cGk6d3Jvbmc='' then ''pi:wrong'' else ''nocolon'')
      (setAuth (Some (None, ''s:ecret'')) (initial_state :: nat module_state))
      (mkRequest ''GET'' ''/'' (Some ''Basic cGk6d3Jvbmc='')) corsHeaders = Reject (basic401 corsHeaders)
   \<and> checkAuth (\<lambda>x. if x = ''cGk6czplY3JldA=='' then ''pi:s:ecret'' else if x = ''cGk6d3Jvbmc='' then ''pi:wrong'' else ''nocolon'')
      (setAuth (Some (None, ''s:ecret'')) (initial_state :: nat module_state))
      (mkRequest ''GET'' ''/'' (Some ''Basic bm9jb2xvbg=='')) corsHeaders = Reject (basic401 corsHeaders)
   \<and> checkAuth (\<lambda>x. if x = ''cGk6czplY3JldA=='' then ''pi:s:ecret'' else if x = ''cGk6d3Jvbmc='' then ''pi:wrong'' else ''nocolon'')
      (setAuth (Some (None, ''s:ecret'')) (initial_state :: nat module_state))
      (mkRequest ''GET'' ''/'' None) corsHeaders = Reject (basic401 corsHeaders)
   \<and> checkAuth (\<lambda>x. if x = ''cGk6czplY3JldA=='' then ''pi:s:ecret'' else if x = ''cGk6d3Jvbmc='' then ''pi:wrong'' else ''nocolon'')
      (initial_state :: nat module_state)
      (mkRequest ''GET'' ''/'' (Some ''garbage'')) corsHeaders = Pass"
proof -
  let ?dec = "\<lambda>x. if x = ''cGk6czplY3JldA=='' then ''pi:s:ecret'' else if x = ''cGk6d3Jvbmc='' then ''pi:wrong'' else ''nocolon''"
  let ?s = "setAuth (Some (None, ''s:ecret'')) (initial_state :: nat module_state)"
  have c: "authCredentials ?s = Some \<lparr>username = ''pi'', password = ''s:ecret''\<rparr>"
    "authCredentials (initial_state :: nat module_state) = None"
    by (simp_all add: setAuth_def initial_state_def)
  show ?thesis
    using checkAuth_decision[of ?dec ?s "mkRequest ''GET'' ''/'' (Some ''Basic cGk6czplY3JldA=='')" corsHeaders]
      checkAuth_decision[of ?dec ?s "mkRequest ''GET'' ''/'' (Some ''Basic cGk6d3Jvbmc='')" corsHeaders]
      checkAuth_decision[of ?dec ?s "mkRequest ''GET'' ''/'' (Some ''Basic bm9jb2xvbg=='')" corsHeaders]
      checkAuth_decision[of ?dec ?s "mkRequest ''GET'' ''/'' None" corsHeaders]
      checkAuth_decision[of ?dec "initial_state :: nat module_state" "mkRequest ''GET'' ''/'' (Some ''garbage'')" corsHeaders]
    by (simp add: c mkRequest_def)
qed

section \<open>Lifecycle and status observers\<close>

lemma exec_port_invariant:
  "(server s = None \<longrightarrow> serverPort s = None) \<Longrightarrow>
   (server (exec a s) = None \<longrightarrow> serverPort (exec a s) = None)"
  by (cases a)
    (auto simp: mount_def mountApi_def unmount_def unmountApi_def setAuth_def setApiToken_def
      setApiReadToken_def start_def stop_def Let_def split: option.splits if_splits)

lemma fold_exec_port_invariant:
  "(server s = None \<longrightarrow> serverPort s = None) \<Longrightarrow>
   (server (fold exec acts s) = None \<longrightarrow> serverPort (fold exec acts s) = None)"
proof (induction acts arbitrary: s)
  case Nil
  then show ?case by simp
next
  case (Cons a acts)
  from exec_port_invariant[OF Cons.prems] have "server (exec a s) = None \<longrightarrow> serverPort (exec a s) = None" .
  from Cons.IH[OF this] show ?case by simp
qed

lemma run_port_invariant: "server (run acts) = None \<longrightarrow> serverPort (run acts) = None"
  unfolding run_def by (rule fold_exec_port_invariant) (simp add: initial_state_def)

text \<open>
  Claim C9. In every state that a sequence of calls of the exported operations leads to:
  \<open>stop()\<close> returns \<open>true\<close> exactly when a server was running; afterwards \<open>isRunning()\<close> is
  \<open>false\<close> and \<open>getPort()\<close> and \<open>getUrl()\<close> are \<open>null\<close>; a second \<open>stop()\<close> returns \<open>false\<close>
  and leaves the state as the first one left it.
\<close>

theorem stop_idempotent:
  "fst (stop (run acts)) = isRunning (run acts)
   \<and> isRunning (snd (stop (run acts))) = False
   \<and> getPort (snd (stop (run acts))) = None
   \<and> getUrl (snd (stop (run acts))) = None
   \<and> stop (snd (stop (run acts))) = (False, snd (stop (run acts)))"
  using run_port_invariant[of acts]
  by (simp add: stop_def isRunning_def getPort_def getUrl_def)

theorem stop_idempotent_witness:
  "isRunning (run [Start (Some 8080) (Some ''<html>'') False, SetApiToken (Some ''F'') :: nat action])
   \<and> getPort (run [Start (Some 8080) (Some ''<html>'') False, SetApiToken (Some ''F'') :: nat action]) = Some 8080
   \<and> getUrl (run [Start (Some 8080) (Some ''<html>'') False, SetApiToken (Some ''F'') :: nat action])
        = Some ''http://localhost:8080''
   \<and> fst (stop (run [Start (Some 8080) (Some ''<html>'') False, SetApiToken (Some ''F'') :: nat action]))
   \<and> getPort (snd (stop (run [Start (Some 8080) (Some ''<html>'') False, SetApiToken (Some ''F'') :: nat action]))) = None
   \<and> \<not> fst (stop (run [Start (Some 8080) (Some ''<html>'') False, Stop :: nat action]))"
proof -
  let ?a = "[Start (Some 8080) (Some ''<html>'') False, SetApiToken (Some ''F'') :: nat action]"
  let ?b = "[Start (Some 8080) (Some ''<html>'') False, Stop :: nat action]"
  have d: "decimal 8080 = ''8080''"
    by (simp add: decimal.simps[of 8080] decimal.simps[of 808] decimal.simps[of 80]
        decimal.simps[of 8])
  have a: "server (run ?a) = Some \<lparr>dashboardHtml = ''<html>'', listenPort = 8080\<rparr>"
    "serverPort (run ?a) = Some 8080"
    by (simp_all add: run_def start_def setApiToken_def initial_state_def Let_def)
  have b: "server (run ?b) = None"
    by (simp add: run_def start_def stop_def initial_state_def Let_def)
  have u: "getUrl (run ?a) = Some ''http://localhost:8080''"
    by (simp add: getUrl_def a urlOf_def d)
  have r: "isRunning (run ?a)" "getPort (run ?a) = Some 8080" "\<not> isRunning (run ?b)"
    by (simp_all add: isRunning_def getPort_def a b)
  show ?thesis
    using stop_idempotent[of ?a] stop_idempotent[of ?b] u r by simp
qed

text \<open>
  Claim C10. The two status observers do not depend on the secrets. Two states that agree
  on whether session credentials are set and on the username, and on which of the two
  tokens are set, give the same \<open>getAuth()\<close> and the same \<open>getApiTokenStatus()\<close>, whatever
  the passwords and the contents of the tokens are.
\<close>

theorem status_observers_hide_secrets:
  assumes "map_option username (authCredentials s1) = map_option username (authCredentials s2)"
    and "(apiToken s1 = None) = (apiToken s2 = None)"
    and "(apiReadToken s1 = None) = (apiReadToken s2 = None)"
  shows "getAuth s1 = getAuth s2 \<and> getApiTokenStatus s1 = getApiTokenStatus s2"
  using assms
  by (cases "authCredentials s1"; cases "authCredentials s2")
    (simp_all add: getAuth_def getApiTokenStatus_def)

theorem status_observers_hide_secrets_witness:
  "getAuth (setApiToken (Some ''token-one'') (setAuth (Some (Some ''admin'', ''s3cret'')) (initial_state :: nat module_state)))
     = getAuth (setApiToken (Some ''another'') (setAuth (Some (Some ''admin'', ''hunter2'')) (initial_state :: nat module_state)))
   \<and> getApiTokenStatus (setApiToken (Some ''token-one'') (setAuth (Some (Some ''admin'', ''s3cret'')) (initial_state :: nat module_state)))
     = getApiTokenStatus (setApiToken (Some ''another'') (setAuth (Some (Some ''admin'', ''hunter2'')) (initial_state :: nat module_state)))
   \<and> getAuth (setApiToken (Some ''token-one'') (setAuth (Some (Some ''admin'', ''s3cret'')) (initial_state :: nat module_state)))
     = Some ''admin''
   \<and> password (the (authCredentials (setAuth (Some (Some ''admin'', ''s3cret'')) (initial_state :: nat module_state))))
     \<noteq> password (the (authCredentials (setAuth (Some (Some ''admin'', ''hunter2'')) (initial_state :: nat module_state))))"
proof -
  let ?s1 = "setApiToken (Some ''token-one'') (setAuth (Some (Some ''admin'', ''s3cret'')) (initial_state :: nat module_state))"
  let ?s2 = "setApiToken (Some ''another'') (setAuth (Some (Some ''admin'', ''hunter2'')) (initial_state :: nat module_state))"
  have h1: "map_option username (authCredentials ?s1) = map_option username (authCredentials ?s2)"
    by (simp add: setApiToken_def setAuth_def)
  have h2: "(apiToken ?s1 = None) = (apiToken ?s2 = None)"
    by (simp add: setApiToken_def)
  have h3: "(apiReadToken ?s1 = None) = (apiReadToken ?s2 = None)"
    by (simp add: setApiToken_def setAuth_def)
  show ?thesis
    using status_observers_hide_secrets[OF h1 h2 h3]
    by (simp add: getAuth_def setApiToken_def setAuth_def)
qed

section \<open>The registry\<close>

lemma endsWith_slash: "endsWith q ''/'' \<longleftrightarrow> q \<noteq> [] \<and> last q = CHR ''/''"
proof (cases q rule: rev_cases)
  case Nil
  then show ?thesis by (simp add: endsWith_def)
next
  case (snoc ys y)
  then show ?thesis by (auto simp: endsWith_def)
qed

lemma startsWith_slash: "startsWith q ''/'' \<longleftrightarrow> (\<exists>r. q = CHR ''/'' # r)"
  by (cases q) (auto simp: startsWith_def)

lemma stripTrailingSlashes_last:
  "stripTrailingSlashes p = [] \<or> last (stripTrailingSlashes p) \<noteq> CHR ''/''"
proof (cases "dropWhile (\<lambda>c. c = CHR ''/'') (rev p)")
  case Nil
  then show ?thesis by (simp add: stripTrailingSlashes_def)
next
  case (Cons y ys)
  then have "\<not> (y = CHR ''/'')" using hd_dropWhile[of "\<lambda>c. c = CHR ''/''" "rev p"] by simp
  with Cons show ?thesis by (simp add: stripTrailingSlashes_def)
qed

lemma stripTrailingSlashes_Nil: "stripTrailingSlashes p = [] \<longleftrightarrow> set p \<subseteq> {CHR ''/''}"
  by (auto simp: stripTrailingSlashes_def)

lemma stripTrailingSlashes_id:
  "q \<noteq> [] \<Longrightarrow> last q \<noteq> CHR ''/'' \<Longrightarrow> stripTrailingSlashes q = q"
  by (cases q rule: rev_cases) (simp_all add: stripTrailingSlashes_def)

lemma normalizePrefix_shape:
  "startsWith (normalizePrefix p) ''/'' \<and>
   (normalizePrefix p = ''/'' \<or> \<not> endsWith (normalizePrefix p) ''/'')"
proof -
  let ?q = "stripTrailingSlashes p"
  show ?thesis
  proof (cases "?q = []")
    case True
    then show ?thesis by (simp add: normalizePrefix_def startsWith_def)
  next
    case False
    with stripTrailingSlashes_last[of p] have l: "last ?q \<noteq> CHR ''/''" by simp
    show ?thesis
    proof (cases "startsWith ?q ''/''")
      case True
      with False l show ?thesis by (simp add: normalizePrefix_def endsWith_slash)
    next
      case nsw: False
      with False l show ?thesis
        by (simp add: normalizePrefix_def endsWith_slash startsWith_slash)
    qed
  qed
qed

lemma normalizePrefix_root: "normalizePrefix p = ''/'' \<longleftrightarrow> set p \<subseteq> {CHR ''/''}"
proof -
  let ?q = "stripTrailingSlashes p"
  have "normalizePrefix p = ''/'' \<longleftrightarrow> ?q = []"
  proof (cases "?q = []")
    case True
    then show ?thesis by (simp add: normalizePrefix_def startsWith_def)
  next
    case False
    with stripTrailingSlashes_last[of p] have l: "last ?q \<noteq> CHR ''/''" by simp
    have "normalizePrefix p \<noteq> ''/''"
    proof (cases "startsWith ?q ''/''")
      case True
      with l show ?thesis by (auto simp: normalizePrefix_def)
    next
      case nsw: False
      with False show ?thesis by (simp add: normalizePrefix_def)
    qed
    with False show ?thesis by simp
  qed
  then show ?thesis by (simp add: stripTrailingSlashes_Nil)
qed

lemma normalizePrefix_api:
  "isApiPath (normalizePrefix (''/api'' @ normalizePrefix p)) \<and>
   \<not> endsWith (normalizePrefix (''/api'' @ normalizePrefix p)) ''/''"
proof (cases "normalizePrefix p = ''/''")
  case True
  have "stripTrailingSlashes ''/api/'' = ''/api''" by (simp add: stripTrailingSlashes_def)
  then have "normalizePrefix (''/api'' @ normalizePrefix p) = ''/api''"
    using True by (simp add: normalizePrefix_def startsWith_def)
  then show ?thesis by (simp add: isApiPath_def endsWith_def)
next
  case False
  let ?n = "normalizePrefix p"
  from normalizePrefix_shape[of p] False
  obtain r where r: "?n = CHR ''/'' # r" and ne: "\<not> endsWith ?n ''/''"
    by (auto simp: startsWith_slash)
  from ne r have l: "last (''/api'' @ ?n) \<noteq> CHR ''/''" by (simp add: endsWith_slash)
  then have "stripTrailingSlashes (''/api'' @ ?n) = ''/api'' @ ?n"
    by (intro stripTrailingSlashes_id) simp_all
  then have e: "normalizePrefix (''/api'' @ ?n) = ''/api'' @ ?n"
    by (simp add: normalizePrefix_def startsWith_def)
  have "isApiPath (''/api'' @ ?n)" by (simp add: r isApiPath_def startsWith_def)
  moreover have "\<not> endsWith (''/api'' @ ?n) ''/''" using l by (simp add: endsWith_slash r)
  ultimately show ?thesis by (simp only: e) simp
qed

lemma map_of_Map_set: "map_of (Map_set m k v) k = Some v"
  by (induction m) auto

lemma set_Map_set: "set (Map_set m k v) \<subseteq> insert (k, v) (set m)"
  by (induction m) (auto split: if_splits)

lemma map_of_mount:
  "map_option prefix (map_of (mounts (mount config s)) (name config))
     = Some (normalizePrefix (prefix config))"
  by (simp add: mount_def map_of_Map_set)

lemma mount_preserves_shape:
  assumes "\<forall>e \<in> set (mounts s). Q (prefix (snd e))" and "Q (normalizePrefix (prefix config))"
  shows "\<forall>e \<in> set (mounts (mount config s)). Q (prefix (snd e))"
proof
  fix e assume "e \<in> set (mounts (mount config s))"
  then have "e \<in> insert (name config, config\<lparr>prefix := normalizePrefix (prefix config),
      label := Some (case label config of None \<Rightarrow> name config | Some l \<Rightarrow> l)\<rparr>) (set (mounts s))"
    using set_Map_set by (fastforce simp: mount_def)
  with assms show "Q (prefix (snd e))" by auto
qed

lemma exec_preserves_shape:
  assumes "\<forall>e \<in> set (mounts s). Q (prefix (snd e))" and "\<And>p. Q (normalizePrefix p)"
  shows "\<forall>e \<in> set (mounts (exec a s)). Q (prefix (snd e))"
proof (cases a)
  case (Mount config)
  then show ?thesis using mount_preserves_shape[of s Q config] assms by simp
next
  case (MountApi config)
  then show ?thesis
    using mount_preserves_shape[of s Q "config\<lparr>prefix := ''/api'' @ normalizePrefix (prefix config)\<rparr>"] assms
    by (simp add: mountApi_def)
next
  case (Unmount n)
  then show ?thesis using assms(1) by (simp add: unmount_def Map_delete_def)
next
  case (UnmountApi n)
  then show ?thesis using assms(1) by (simp add: unmountApi_def unmount_def Map_delete_def)
next
  case (Start portArg dashboardFile listenThrows)
  then show ?thesis using assms(1)
    by (simp add: start_def stop_def Let_def split: option.splits)
next
  case Stop
  then show ?thesis using assms(1) by (simp add: stop_def)
qed (use assms(1) in \<open>simp_all add: setAuth_def setApiToken_def setApiReadToken_def\<close>)

lemma fold_exec_preserves_shape:
  assumes "\<And>p. Q (normalizePrefix p)"
  shows "\<forall>e \<in> set (mounts s). Q (prefix (snd e)) \<Longrightarrow>
         \<forall>e \<in> set (mounts (fold exec acts s)). Q (prefix (snd e))"
proof (induction acts arbitrary: s)
  case Nil
  then show ?case by simp
next
  case (Cons a acts)
  have "\<forall>e \<in> set (mounts (exec a s)). Q (prefix (snd e))"
    using Cons.prems assms by (rule exec_preserves_shape)
  from Cons.IH[OF this] show ?case by simp
qed

text \<open>
  Claim C6, as amended. After any sequence of calls of the exported operations, every
  prefix in the registry begins with a slash and does not end with a slash unless it is
  the bare root \<open>/\<close>. \<open>mount\<close> stores the normalised prefix under the name of the
  registration, and the normalised prefix is the bare root exactly when the given prefix
  is empty or consists of slashes only. The prefix that \<open>mountApi\<close> stores is \<open>/api\<close> or
  begins with \<open>/api/\<close>, and never ends with a slash.
\<close>

theorem stored_prefix_shape:
  fixes s :: "'h module_state" and acts :: "'h action list"
  shows
  "(\<forall>e \<in> set (mounts (run acts)).
      startsWith (prefix (snd e)) ''/'' \<and>
      (prefix (snd e) = ''/'' \<or> \<not> endsWith (prefix (snd e)) ''/''))
   \<and> map_option prefix (map_of (mounts (mount config s)) (name config))
        = Some (normalizePrefix (prefix config))
   \<and> (normalizePrefix p = ''/'' \<longleftrightarrow> set p \<subseteq> {CHR ''/''})
   \<and> (\<exists>q. map_option prefix (map_of (mounts (mountApi config s)) (name config)) = Some q
          \<and> isApiPath q \<and> \<not> endsWith q ''/'')"
proof (intro conjI)
  show "\<forall>e \<in> set (mounts (run acts)).
      startsWith (prefix (snd e)) ''/'' \<and>
      (prefix (snd e) = ''/'' \<or> \<not> endsWith (prefix (snd e)) ''/'')"
    unfolding run_def
    by (rule fold_exec_preserves_shape[where Q = "\<lambda>q. startsWith q ''/'' \<and> (q = ''/'' \<or> \<not> endsWith q ''/'')"])
      (simp_all add: normalizePrefix_shape initial_state_def)
  show "map_option prefix (map_of (mounts (mount config s)) (name config))
        = Some (normalizePrefix (prefix config))"
    by (rule map_of_mount)
  show "normalizePrefix p = ''/'' \<longleftrightarrow> set p \<subseteq> {CHR ''/''}"
    by (rule normalizePrefix_root)
  have "map_option prefix (map_of (mounts (mountApi config s)) (name config))
        = Some (normalizePrefix (''/api'' @ normalizePrefix (prefix config)))"
    using map_of_mount[of "config\<lparr>prefix := ''/api'' @ normalizePrefix (prefix config)\<rparr>" s]
    by (simp add: mountApi_def)
  then show "\<exists>q. map_option prefix (map_of (mounts (mountApi config s)) (name config)) = Some q
          \<and> isApiPath q \<and> \<not> endsWith q ''/''"
    using normalizePrefix_api[of "prefix config"] by blast
qed

theorem stored_prefix_shape_witness:
  "map prefix (Map_values (mounts (run
      [Mount (mountConfig ''crm'' ''crm//'' None 1), MountApi (mountConfig ''chat'' ''chat/'' None 2),
       Mount (mountConfig ''root'' ''//'' None 3), MountApi (mountConfig ''all'' '''' None 4),
       Unmount ''none'', Mount (mountConfig ''crm'' ''/crm/v2'' None 5)])))
     = [''/crm/v2'', ''/api/chat'', ''/'', ''/api'']
   \<and> map (\<lambda>q. startsWith q ''/'') (map prefix (Map_values (mounts (run
      [Mount (mountConfig ''crm'' ''crm//'' None 1), MountApi (mountConfig ''chat'' ''chat/'' None 2),
       Mount (mountConfig ''root'' ''//'' None 3), MountApi (mountConfig ''all'' '''' None 4),
       Unmount ''none'', Mount (mountConfig ''crm'' ''/crm/v2'' None 5)]))))
     = [True, True, True, True]
   \<and> normalizePrefix ''//'' = ''/''"
proof -
  let ?acts = "[Mount (mountConfig ''crm'' ''crm//'' None 1), MountApi (mountConfig ''chat'' ''chat/'' None 2),
       Mount (mountConfig ''root'' ''//'' None 3), MountApi (mountConfig ''all'' '''' None 4),
       Unmount ''none'', Mount (mountConfig ''crm'' ''/crm/v2'' None 5)]"
  have n: "normalizePrefix ''crm//'' = ''/crm''" "normalizePrefix ''chat/'' = ''/chat''"
    "normalizePrefix ''//'' = ''/''" "normalizePrefix '''' = ''/''"
    "normalizePrefix ''/crm/v2'' = ''/crm/v2''" "normalizePrefix ''/api/chat'' = ''/api/chat''"
    "normalizePrefix ''/api/'' = ''/api''"
    by (simp_all add: normalizePrefix_def stripTrailingSlashes_def startsWith_def)
  have m: "map prefix (Map_values (mounts (run ?acts))) = [''/crm/v2'', ''/api/chat'', ''/'', ''/api'']"
    by (simp add: run_def mount_def mountApi_def unmount_def Map_delete_def Map_values_def
        mountConfig_def initial_state_def n)
  show ?thesis
    using stored_prefix_shape[where acts = ?acts and p = "''//''"] m n(3)
    by (simp add: startsWith_def)
qed

theorem root_prefix_counterexample:
  "map_option prefix (map_of (mounts (run [Mount (mountConfig ''root'' ''/'' None 1)])) ''root'')
     = Some ''/''
   \<and> endsWith ''/'' ''/''
   \<and> map_option prefix (map_of (mounts (run [Mount (mountConfig ''empty'' '''' None 1)])) ''empty'')
     = Some ''/''"
  by (simp add: run_def mount_def mountConfig_def initial_state_def normalizePrefix_def
      stripTrailingSlashes_def startsWith_def endsWith_def)

text \<open>
  Claim C7. \<open>getApiMounts\<close> keeps every mount whose prefix begins with the four characters
  \<open>/api\<close>. A mount registered at \<open>/apiary\<close> is a mount of the general namespace: its paths
  are not API paths and a request to it goes through the session gate. It is listed all
  the same in the \<open>mounts\<close> field of the answer to a request to \<open>/api\<close>.
\<close>

theorem api_listing_includes_general_mount:
  "requestListener (\<lambda>x. x) ''<html>''
      (run [Mount (mountConfig ''apiary'' ''/apiary'' None 1), SetAuth (Some (None, ''secret''))])
      (mkRequest ''GET'' ''/api'' None)
     = Respond (writeHead_end corsHeaders 200 [jsonType]
         (JsonApiListing
            [\<lparr>MountInfo.name = ''apiary'', MountInfo.label = ''apiary'', MountInfo.description = None,
              MountInfo.prefix = ''/apiary'', MountInfo.skipAuth = None\<rparr>] False False))
   \<and> \<not> isApiPath ''/apiary''
   \<and> \<not> isApiPath ''/apiary/bees''
   \<and> requestListener (\<lambda>x. x) ''<html>''
      (run [Mount (mountConfig ''apiary'' ''/apiary'' None 1), SetAuth (Some (None, ''secret''))])
      (mkRequest ''GET'' ''/apiary/bees'' None)
     = Respond (basic401 corsHeaders)"
proof -
  let ?s = "run [Mount (mountConfig ''apiary'' ''/apiary'' None 1), SetAuth (Some (None, ''secret''))]"
  have s: "?s = \<lparr>server = None, serverPort = None,
      mounts = [(''apiary'', \<lparr>name = ''apiary'', label = Some ''apiary'', description = None,
         prefix = ''/apiary'', handler = 1, skipAuth = None\<rparr>)],
      authCredentials = Some \<lparr>username = ''pi'', password = ''secret''\<rparr>,
      apiToken = None, apiReadToken = None\<rparr>"
    by (simp add: run_def mount_def setAuth_def mountConfig_def initial_state_def normalizePrefix_def
        stripTrailingSlashes_def startsWith_def)
  have a: "\<not> isApiPath ''/apiary''" "\<not> isApiPath ''/apiary/bees''" "isApiPath ''/api''"
    by (simp_all add: isApiPath_def startsWith_def)
  have l: "requestListener (\<lambda>x. x) ''<html>'' ?s (mkRequest ''GET'' ''/api'' None)
     = Respond (writeHead_end corsHeaders 200 [jsonType]
         (JsonApiListing
            [\<lparr>MountInfo.name = ''apiary'', MountInfo.label = ''apiary'', MountInfo.description = None,
              MountInfo.prefix = ''/apiary'', MountInfo.skipAuth = None\<rparr>] False False))"
    unfolding s
    by (simp add: requestListener_def mkRequest_def a checkApiAuth_def falsy_def apiAuthThen_def
        getApiMounts_def getMounts_def Map_values_def mountInfo_def startsWith_def)
  have g: "requestListener (\<lambda>x. x) ''<html>'' ?s (mkRequest ''GET'' ''/apiary/bees'' None)
     = Respond (basic401 corsHeaders)"
    unfolding s
    by (simp add: requestListener_def mkRequest_def a checkAuth_def)
  show ?thesis using l g a by simp
qed

section \<open>Dispatch of API requests\<close>

lemma isApiPath_reserved:
  "isApiPath p \<Longrightarrow> p \<noteq> ''/'' \<and> p \<noteq> [] \<and> p \<noteq> ''/_api/mounts''"
  by (auto simp: isApiPath_def startsWith_def)

lemma matchesMount_api:
  assumes "matchesMount p c" and "isApiPath (prefix c)"
  shows "isApiPath p"
proof -
  from assms(1) obtain r where r: "p = prefix c @ r"
    using matchesMount_split by blast
  from assms(2) have "prefix c = ''/api'' \<or> (\<exists>x. prefix c = ''/api/'' @ x)"
    by (simp add: isApiPath_def startsWith_iff)
  then show ?thesis
  proof
    assume c: "prefix c = ''/api''"
    from assms(1) have "p = ''/api'' \<or> startsWith p ''/api/''"
      by (simp add: matchesMount_def c)
    then show ?thesis by (simp add: isApiPath_def)
  next
    assume "\<exists>x. prefix c = ''/api/'' @ x"
    then obtain x where "prefix c = ''/api/'' @ x" by blast
    with r have "p = ''/api/'' @ (x @ r)" by simp
    then have "startsWith p ''/api/''" by (simp only: startsWith_iff) blast
    then show ?thesis by (simp add: isApiPath_def)
  qed
qed

lemma requestListener_api:
  assumes "reqMethod rq \<noteq> ''OPTIONS''" and "isApiPath (pathname rq)"
  shows "requestListener dec html s rq =
     (if pathname rq = ''/api'' \<or> pathname rq = ''/api/'' then
        apiAuthThen corsHeaders (checkApiAuth s rq corsHeaders)
          (Respond (writeHead_end corsHeaders 200 [jsonType]
             (JsonApiListing (getApiMounts s) (apiToken s \<noteq> None) (apiReadToken s \<noteq> None))))
      else
        (case route (Map_values (mounts s)) (pathname rq) of
           Some (bm, sub) \<Rightarrow>
             (if skipAuth bm \<noteq> Some True then
                apiAuthThen corsHeaders (checkApiAuth s rq corsHeaders) (Invoke bm sub)
              else Invoke bm sub)
         | None \<Rightarrow>
             apiAuthThen corsHeaders (checkApiAuth s rq corsHeaders)
               (Respond (notFound404 corsHeaders))))"
  using assms isApiPath_reserved[OF assms(2)]
  by (simp add: requestListener_def Let_def split: option.splits)

lemma apiAuthThen_gate:
  "apiAuthThen res (Inr g) k = (case g of Pass \<Rightarrow> k | Reject r \<Rightarrow> Respond r)"
  by (cases g) (simp_all add: apiAuthThen_def)

lemma checkApiAuth_gate:
  "\<exists>g. checkApiAuth s rq res = Inr g \<and> (\<forall>r. g = Reject r \<longrightarrow> status r = 401 \<or> status r = 403)"
  unfolding checkApiAuth_eq
  by (simp add: readOnly403_def token401_def writeHead_end_def)

lemma checkApiAuth_no_valid_token:
  assumes "\<exists>t. t \<noteq> [] \<and> (apiToken s = Some t \<or> apiReadToken s = Some t)"
    and "\<not> (\<exists>t. t \<noteq> [] \<and> bearerOf rq = Some t \<and> (apiToken s = Some t \<or> apiReadToken s = Some t))"
  shows "checkApiAuth s rq res = Inr (Reject (token401 res))"
proof -
  from assms(1) have "\<not> (falsy (apiToken s) \<and> falsy (apiReadToken s))"
    by (auto simp: falsy_def)
  moreover from assms(2) have "\<not> (\<exists>t. t \<noteq> [] \<and> bearerOf rq = Some t \<and> apiToken s = Some t)"
    "\<not> (\<exists>t. t \<noteq> [] \<and> bearerOf rq = Some t \<and> apiReadToken s = Some t)"
    by blast+
  ultimately show ?thesis
    unfolding checkApiAuth_eq by (simp only: if_False)
qed

text \<open>
  Claim C3, as amended. Take a request other than a CORS preflight whose path is not the
  API root (\<open>/api\<close> or \<open>/api/\<close>) and which the router gives to a mount under the API
  namespace. When the mount is registered with \<open>skipAuth\<close> set, its handler is called with
  the sub-path whatever tokens are configured and whatever the \<open>Authorization\<close> header is.
  When it is not, the token gate decides: the handler is called when the gate lets the
  request pass, and otherwise the answer is the response of the gate, a 401 or a 403; it is
  the 401 when a non-empty token is configured and the bearer value equals neither token.
\<close>

theorem skipAuth_bypass:
  assumes "reqMethod rq \<noteq> ''OPTIONS''"
    and "pathname rq \<noteq> ''/api''" and "pathname rq \<noteq> ''/api/''"
    and "route (Map_values (mounts s)) (pathname rq) = Some (bm, sub)"
    and "isApiPath (prefix bm)"
  shows "(skipAuth bm = Some True \<longrightarrow> requestListener dec html s rq = Invoke bm sub)
    \<and> (skipAuth bm \<noteq> Some True \<longrightarrow>
         (\<exists>g. checkApiAuth s rq corsHeaders = Inr g
            \<and> requestListener dec html s rq = (case g of Pass \<Rightarrow> Invoke bm sub | Reject r \<Rightarrow> Respond r)
            \<and> (\<forall>r. g = Reject r \<longrightarrow> status r = 401 \<or> status r = 403)))
    \<and> (skipAuth bm \<noteq> Some True
         \<and> (\<exists>t. t \<noteq> [] \<and> (apiToken s = Some t \<or> apiReadToken s = Some t))
         \<and> \<not> (\<exists>t. t \<noteq> [] \<and> bearerOf rq = Some t \<and> (apiToken s = Some t \<or> apiReadToken s = Some t))
         \<longrightarrow> requestListener dec html s rq = Respond (token401 corsHeaders)
             \<and> status (token401 corsHeaders) = 401)"
proof -
  from assms(4) have "bestMatchLoop (Map_values (mounts s)) (pathname rq) None = Some bm"
    by (simp add: route_Some)
  from bestMatchLoop_Some[OF this] have "matchesMount (pathname rq) bm" by blast
  then have api: "isApiPath (pathname rq)" using assms(5) by (rule matchesMount_api)
  have L: "requestListener dec html s rq =
     (if skipAuth bm \<noteq> Some True then
        apiAuthThen corsHeaders (checkApiAuth s rq corsHeaders) (Invoke bm sub)
      else Invoke bm sub)"
    using requestListener_api[OF assms(1) api, of dec html s] assms(2,3,4) by simp
  obtain g where g: "checkApiAuth s rq corsHeaders = Inr g"
    "\<forall>r. g = Reject r \<longrightarrow> status r = 401 \<or> status r = 403"
    using checkApiAuth_gate by blast
  show ?thesis
  proof (intro conjI impI)
    assume "skipAuth bm = Some True"
    with L show "requestListener dec html s rq = Invoke bm sub" by simp
  next
    assume n: "skipAuth bm \<noteq> Some True"
    with L g(1) have "requestListener dec html s rq = (case g of Pass \<Rightarrow> Invoke bm sub | Reject r \<Rightarrow> Respond r)"
      by (simp add: apiAuthThen_gate)
    with g show "\<exists>g. checkApiAuth s rq corsHeaders = Inr g
            \<and> requestListener dec html s rq = (case g of Pass \<Rightarrow> Invoke bm sub | Reject r \<Rightarrow> Respond r)
            \<and> (\<forall>r. g = Reject r \<longrightarrow> status r = 401 \<or> status r = 403)"
      by blast
  next
    assume a: "skipAuth bm \<noteq> Some True
         \<and> (\<exists>t. t \<noteq> [] \<and> (apiToken s = Some t \<or> apiReadToken s = Some t))
         \<and> \<not> (\<exists>t. t \<noteq> [] \<and> bearerOf rq = Some t \<and> (apiToken s = Some t \<or> apiReadToken s = Some t))"
    then have "checkApiAuth s rq corsHeaders = Inr (Reject (token401 corsHeaders))"
      using checkApiAuth_no_valid_token[of s rq corsHeaders] by blast
    with L a show "requestListener dec html s rq = Respond (token401 corsHeaders)"
      by (simp add: apiAuthThen_gate)
  next
    show "status (token401 corsHeaders) = 401"
      by (simp add: token401_def writeHead_end_def)
  qed
qed

theorem skipAuth_bypass_witness:
  "requestListener (\<lambda>x. x) ''<html>''
      (run [SetApiToken (Some ''F''), MountApi (mountConfig ''ext'' ''/ext'' (Some True) 11),
            MountApi (mountConfig ''other'' ''other'' None 2)])
      (mkRequest ''POST'' ''/api/ext/anything'' None)
     = Invoke \<lparr>name = ''ext'', label = Some ''ext'', description = None, prefix = ''/api/ext'',
               handler = 11, skipAuth = Some True\<rparr> ''/anything''
   \<and> requestListener (\<lambda>x. x) ''<html>''
      (run [SetApiToken (Some ''F''), MountApi (mountConfig ''ext'' ''/ext'' (Some True) 11),
            MountApi (mountConfig ''other'' ''other'' None 2)])
      (mkRequest ''GET'' ''/api/other'' None)
     = Respond (token401 corsHeaders)
   \<and> requestListener (\<lambda>x. x) ''<html>''
      (run [SetApiToken (Some ''F''), MountApi (mountConfig ''ext'' ''/ext'' (Some True) 11),
            MountApi (mountConfig ''other'' ''other'' None 2)])
      (mkRequest ''GET'' ''/api/other'' (Some ''Bearer F''))
     = Invoke \<lparr>name = ''other'', label = Some ''other'', description = None, prefix = ''/api/other'',
               handler = 2, skipAuth = None\<rparr> ''/''"
proof -
  let ?ext = "\<lparr>name = ''ext'', label = Some ''ext'', description = None, prefix = ''/api/ext'',
               handler = 11 :: nat, skipAuth = Some True\<rparr>"
  let ?other = "\<lparr>name = ''other'', label = Some ''other'', description = None, prefix = ''/api/other'',
               handler = 2 :: nat, skipAuth = None\<rparr>"
  let ?s = "run [SetApiToken (Some ''F''), MountApi (mountConfig ''ext'' ''/ext'' (Some True) 11),
            MountApi (mountConfig ''other'' ''other'' None 2)]"
  let ?r1 = "mkRequest ''POST'' ''/api/ext/anything'' None"
  let ?r2 = "mkRequest ''GET'' ''/api/other'' None"
  let ?r3 = "mkRequest ''GET'' ''/api/other'' (Some ''Bearer F'')"
  have n: "normalizePrefix ''/ext'' = ''/ext''" "normalizePrefix ''other'' = ''/other''"
    "normalizePrefix ''/api/ext'' = ''/api/ext''" "normalizePrefix ''/api/other'' = ''/api/other''"
    by (simp_all add: normalizePrefix_def stripTrailingSlashes_def startsWith_def)
  have s: "?s = \<lparr>server = None, serverPort = None,
      mounts = [(''ext'', ?ext), (''other'', ?other)],
      authCredentials = None, apiToken = Some ''F'', apiReadToken = None\<rparr>"
    by (simp add: run_def mount_def mountApi_def setApiToken_def mountConfig_def initial_state_def n)
  have m: "reqMethod ?r1 \<noteq> ''OPTIONS''" "reqMethod ?r2 \<noteq> ''OPTIONS''" "reqMethod ?r3 \<noteq> ''OPTIONS''"
    "pathname ?r1 \<noteq> ''/api''" "pathname ?r1 \<noteq> ''/api/''"
    "pathname ?r2 \<noteq> ''/api''" "pathname ?r2 \<noteq> ''/api/''"
    "pathname ?r3 \<noteq> ''/api''" "pathname ?r3 \<noteq> ''/api/''"
    by (simp_all add: mkRequest_def)
  have r1: "route (Map_values (mounts ?s)) (pathname ?r1) = Some (?ext, ''/anything'')"
    unfolding s
    by (simp add: route_def Map_values_def mkRequest_def matchesMount_def startsWith_def
        subPathOf_def slice_from_def)
  have r2: "route (Map_values (mounts ?s)) (pathname ?r2) = Some (?other, ''/'')"
    unfolding s
    by (simp add: route_def Map_values_def mkRequest_def matchesMount_def startsWith_def
        subPathOf_def slice_from_def)
  have r3: "route (Map_values (mounts ?s)) (pathname ?r3) = Some (?other, ''/'')"
    unfolding s
    by (simp add: route_def Map_values_def mkRequest_def matchesMount_def startsWith_def
        subPathOf_def slice_from_def)
  have a: "isApiPath (prefix ?ext)" "isApiPath (prefix ?other)"
    by (simp_all add: isApiPath_def startsWith_def)
  have t: "apiToken ?s = Some ''F''" "apiReadToken ?s = None" by (simp_all add: s)
  have b: "bearerOf ?r2 = None" "bearerOf ?r3 = Some ''F''"
    by (simp_all add: bearerOf_def mkRequest_def startsWith_def slice_from_def)
  have g3: "checkApiAuth ?s ?r3 corsHeaders = Inr Pass"
    by (simp add: checkApiAuth_eq t b falsy_def)
  from skipAuth_bypass[OF m(1) m(4) m(5) r1 a(1), of "\<lambda>x. x" "''<html>''"]
  have c1: "requestListener (\<lambda>x. x) ''<html>'' ?s ?r1 = Invoke ?ext ''/anything''" by simp
  from skipAuth_bypass[OF m(2) m(6) m(7) r2 a(2), of "\<lambda>x. x" "''<html>''"]
  have c2: "requestListener (\<lambda>x. x) ''<html>'' ?s ?r2 = Respond (token401 corsHeaders)"
    by (simp add: t b)
  from skipAuth_bypass[OF m(3) m(8) m(9) r3 a(2), of "\<lambda>x. x" "''<html>''"]
  have c3: "requestListener (\<lambda>x. x) ''<html>'' ?s ?r3 = Invoke ?other ''/''"
    by (simp add: g3)
  from c1 c2 c3 show ?thesis by simp
qed

theorem skipAuth_shadowed_counterexample:
  "\<lparr>name = ''ext'', label = Some ''ext'', description = None, prefix = ''/api/ext'',
     handler = 11, skipAuth = Some True\<rparr>
     \<in> set (Map_values (mounts (run [SetApiToken (Some ''F''),
            MountApi (mountConfig ''ext'' ''/ext'' (Some True) 11),
            MountApi (mountConfig ''admin'' ''/ext/admin'' None 2)])))
   \<and> matchesMount ''/api/ext/admin/users''
        \<lparr>name = ''ext'', label = Some ''ext'', description = None, prefix = ''/api/ext'',
         handler = 11 :: nat, skipAuth = Some True\<rparr>
   \<and> requestListener (\<lambda>x. x) ''<html>''
        (run [SetApiToken (Some ''F''), MountApi (mountConfig ''ext'' ''/ext'' (Some True) 11),
              MountApi (mountConfig ''admin'' ''/ext/admin'' None 2)])
        (mkRequest ''GET'' ''/api/ext/admin/users'' None)
       = Respond (token401 corsHeaders)
   \<and> requestListener (\<lambda>x. x) ''<html>''
        (run [SetApiToken (Some ''F''), MountApi (mountConfig ''ext'' ''/ext'' (Some True) 11),
              MountApi (mountConfig ''admin'' ''/ext/admin'' None 2)])
        (mkRequest ''OPTIONS'' ''/api/ext/anything'' None)
       = Respond (writeHead_end corsHeaders 204 [] NoBody)"
proof -
  let ?ext = "\<lparr>name = ''ext'', label = Some ''ext'', description = None, prefix = ''/api/ext'',
               handler = 11 :: nat, skipAuth = Some True\<rparr>"
  let ?admin = "\<lparr>name = ''admin'', label = Some ''admin'', description = None,
               prefix = ''/api/ext/admin'', handler = 2 :: nat, skipAuth = None\<rparr>"
  let ?s = "run [SetApiToken (Some ''F''), MountApi (mountConfig ''ext'' ''/ext'' (Some True) 11),
              MountApi (mountConfig ''admin'' ''/ext/admin'' None 2)]"
  have n: "normalizePrefix ''/ext'' = ''/ext''" "normalizePrefix ''/ext/admin'' = ''/ext/admin''"
    "normalizePrefix ''/api/ext'' = ''/api/ext''"
    "normalizePrefix ''/api/ext/admin'' = ''/api/ext/admin''"
    by (simp_all add: normalizePrefix_def stripTrailingSlashes_def startsWith_def)
  have s: "?s = \<lparr>server = None, serverPort = None,
      mounts = [(''ext'', ?ext), (''admin'', ?admin)],
      authCredentials = None, apiToken = Some ''F'', apiReadToken = None\<rparr>"
    by (simp add: run_def mount_def mountApi_def setApiToken_def mountConfig_def initial_state_def n)
  have i: "?ext \<in> set (Map_values (mounts ?s))"
    unfolding s by (simp add: Map_values_def)
  have m: "matchesMount ''/api/ext/admin/users'' ?ext"
    by (simp add: matchesMount_def startsWith_def)
  have r: "route [?ext, ?admin] ''/api/ext/admin/users'' = Some (?admin, ''/users'')"
    by (simp add: route_def matchesMount_def startsWith_def subPathOf_def slice_from_def)
  have a: "isApiPath ''/api/ext/admin/users''" by (simp add: isApiPath_def startsWith_def)
  have g: "checkApiAuth \<lparr>server = None, serverPort = None,
      mounts = [(''ext'', ?ext), (''admin'', ?admin)],
      authCredentials = None, apiToken = Some ''F'', apiReadToken = None\<rparr>
      (mkRequest ''GET'' ''/api/ext/admin/users'' None) corsHeaders
     = Inr (Reject (token401 corsHeaders))"
    by (simp add: checkApiAuth_def falsy_def bearerOf_def mkRequest_def tokensEqual_def)
  have l: "requestListener (\<lambda>x. x) ''<html>'' ?s (mkRequest ''GET'' ''/api/ext/admin/users'' None)
       = Respond (token401 corsHeaders)"
    unfolding s using g
    by (simp add: requestListener_def Let_def mkRequest_def a r Map_values_def apiAuthThen_def)
  have o: "requestListener (\<lambda>x. x) ''<html>'' ?s (mkRequest ''OPTIONS'' ''/api/ext/anything'' None)
       = Respond (writeHead_end corsHeaders 204 [] NoBody)"
    by (simp add: requestListener_def Let_def mkRequest_def)
  from i m l o show ?thesis by simp
qed

text \<open>
  Claim C4, as amended. Take a request other than a CORS preflight whose path is under the
  API namespace and matches no registered mount. The token gate decides first: when it
  rejects, the answer is its 401 or 403; when it lets the request pass, the answer is the
  404, or the listing when the path is the API root. In particular the answer is the 401
  when a non-empty token is configured and the bearer value equals neither token.
\<close>

theorem unmatched_api_path_gated:
  assumes "reqMethod rq \<noteq> ''OPTIONS''"
    and "isApiPath (pathname rq)"
    and "\<forall>c \<in> set (Map_values (mounts s)). \<not> matchesMount (pathname rq) c"
  shows "(\<exists>g. checkApiAuth s rq corsHeaders = Inr g
          \<and> requestListener dec html s rq =
              (case g of
                 Reject r \<Rightarrow> Respond r
               | Pass \<Rightarrow>
                   if pathname rq = ''/api'' \<or> pathname rq = ''/api/'' then
                     Respond (writeHead_end corsHeaders 200 [jsonType]
                       (JsonApiListing (getApiMounts s) (apiToken s \<noteq> None) (apiReadToken s \<noteq> None)))
                   else Respond (notFound404 corsHeaders))
          \<and> (\<forall>r. g = Reject r \<longrightarrow> status r = 401 \<or> status r = 403))
    \<and> status (notFound404 corsHeaders) = 404
    \<and> ((\<exists>t. t \<noteq> [] \<and> (apiToken s = Some t \<or> apiReadToken s = Some t))
         \<and> \<not> (\<exists>t. t \<noteq> [] \<and> bearerOf rq = Some t \<and> (apiToken s = Some t \<or> apiReadToken s = Some t))
         \<longrightarrow> requestListener dec html s rq = Respond (token401 corsHeaders)
             \<and> status (token401 corsHeaders) = 401)"
proof -
  from assms(3) have r: "route (Map_values (mounts s)) (pathname rq) = None"
    by (simp add: route_None)
  let ?k = "if pathname rq = ''/api'' \<or> pathname rq = ''/api/'' then
              Respond (writeHead_end corsHeaders 200 [jsonType]
                (JsonApiListing (getApiMounts s) (apiToken s \<noteq> None) (apiReadToken s \<noteq> None)))
            else Respond (notFound404 corsHeaders) :: 'a outcome"
  have L: "requestListener dec html s rq = apiAuthThen corsHeaders (checkApiAuth s rq corsHeaders) ?k"
    using requestListener_api[OF assms(1,2), of dec html s] r by simp
  obtain g where g: "checkApiAuth s rq corsHeaders = Inr g"
    "\<forall>r. g = Reject r \<longrightarrow> status r = 401 \<or> status r = 403"
    using checkApiAuth_gate by blast
  show ?thesis
  proof (intro conjI impI)
    from L g(1) have "requestListener dec html s rq = (case g of Reject r \<Rightarrow> Respond r | Pass \<Rightarrow> ?k)"
      by (cases g) (simp_all add: apiAuthThen_def)
    with g show "\<exists>g. checkApiAuth s rq corsHeaders = Inr g
          \<and> requestListener dec html s rq =
              (case g of
                 Reject r \<Rightarrow> Respond r
               | Pass \<Rightarrow>
                   if pathname rq = ''/api'' \<or> pathname rq = ''/api/'' then
                     Respond (writeHead_end corsHeaders 200 [jsonType]
                       (JsonApiListing (getApiMounts s) (apiToken s \<noteq> None) (apiReadToken s \<noteq> None)))
                   else Respond (notFound404 corsHeaders))
          \<and> (\<forall>r. g = Reject r \<longrightarrow> status r = 401 \<or> status r = 403)"
      by blast
  next
    show "status (notFound404 corsHeaders) = 404"
      by (simp add: notFound404_def writeHead_end_def)
  next
    assume "(\<exists>t. t \<noteq> [] \<and> (apiToken s = Some t \<or> apiReadToken s = Some t))
         \<and> \<not> (\<exists>t. t \<noteq> [] \<and> bearerOf rq = Some t \<and> (apiToken s = Some t \<or> apiReadToken s = Some t))"
    then have "checkApiAuth s rq corsHeaders = Inr (Reject (token401 corsHeaders))"
      using checkApiAuth_no_valid_token[of s rq corsHeaders] by blast
    with L show "requestListener dec html s rq = Respond (token401 corsHeaders)"
      by (simp add: apiAuthThen_def)
  next
    show "status (token401 corsHeaders) = 401"
      by (simp add: token401_def writeHead_end_def)
  qed
qed

theorem unmatched_api_path_gated_witness:
  "requestListener (\<lambda>x. x) ''<html>''
      (run [SetApiToken (Some ''F''), Mount (mountConfig ''crm'' ''/crm'' None 11)])
      (mkRequest ''GET'' ''/api/nothing'' None)
     = Respond (token401 corsHeaders)
   \<and> status (token401 corsHeaders) = 401
   \<and> isApiPath ''/api/nothing''
   \<and> \<not> matchesMount ''/api/nothing''
        \<lparr>name = ''crm'', label = Some ''crm'', description = None, prefix = ''/crm'',
         handler = 11 :: nat, skipAuth = None\<rparr>"
proof -
  let ?crm = "\<lparr>name = ''crm'', label = Some ''crm'', description = None, prefix = ''/crm'',
         handler = 11 :: nat, skipAuth = None\<rparr>"
  let ?s = "run [SetApiToken (Some ''F''), Mount (mountConfig ''crm'' ''/crm'' None 11)]"
  let ?r = "mkRequest ''GET'' ''/api/nothing'' None"
  have s: "?s = \<lparr>server = None, serverPort = None, mounts = [(''crm'', ?crm)],
      authCredentials = None, apiToken = Some ''F'', apiReadToken = None\<rparr>"
    by (simp add: run_def mount_def setApiToken_def mountConfig_def initial_state_def
        normalizePrefix_def stripTrailingSlashes_def startsWith_def)
  have nm: "\<not> matchesMount ''/api/nothing'' ?crm"
    by (simp add: matchesMount_def startsWith_def)
  have h1: "reqMethod ?r \<noteq> ''OPTIONS''" by (simp add: mkRequest_def)
  have h2: "isApiPath (pathname ?r)" by (simp add: mkRequest_def isApiPath_def startsWith_def)
  have h3: "\<forall>c \<in> set (Map_values (mounts ?s)). \<not> matchesMount (pathname ?r) c"
    unfolding s using nm by (simp add: Map_values_def mkRequest_def)
  have t: "apiToken ?s = Some ''F''" "apiReadToken ?s = None" by (simp_all add: s)
  have b: "bearerOf ?r = None" by (simp add: bearerOf_def mkRequest_def)
  from unmatched_api_path_gated[OF h1 h2 h3, of "\<lambda>x. x" "''<html>''"]
  have "requestListener (\<lambda>x. x) ''<html>'' ?s ?r = Respond (token401 corsHeaders)
      \<and> status (token401 corsHeaders) = 401"
    by (simp add: t b)
  with h2 nm show ?thesis by (simp add: mkRequest_def)
qed

theorem unmatched_api_path_preflight_counterexample:
  "requestListener (\<lambda>x. x) ''<html>''
      (run [SetApiToken (Some ''F'')] :: nat module_state)
      (mkRequest ''OPTIONS'' ''/api/nothing'' None)
     = Respond (writeHead_end corsHeaders 204 [] NoBody)
   \<and> status (writeHead_end corsHeaders 204 [] NoBody) = 204
   \<and> isApiPath ''/api/nothing''
   \<and> Map_values (mounts (run [SetApiToken (Some ''F'')] :: nat module_state)) = []
   \<and> apiToken (run [SetApiToken (Some ''F'')] :: nat module_state) = Some ''F''
   \<and> enabled (getApiTokenStatus (run [SetApiToken (Some '''')] :: nat module_state))
   \<and> requestListener (\<lambda>x. x) ''<html>''
      (run [SetApiToken (Some '''')] :: nat module_state)
      (mkRequest ''GET'' ''/api/nothing'' None)
     = Respond (notFound404 corsHeaders)"
  by (simp add: requestListener_def Let_def mkRequest_def writeHead_end_def isApiPath_def
      startsWith_def run_def setApiToken_def initial_state_def Map_values_def
      getApiTokenStatus_def route_def checkApiAuth_def falsy_def apiAuthThen_def)

end
